theory Spec2Isabelle
  imports Complex_Main "HOL-Library.Word" "HOL-Library.Signed_Division"
begin

section \<open>FracLib: the Frac class of src/frac.cpp\<close>

text \<open>
  The C++ type \<open>int\<close> is a 32-bit two's complement word. The operations \<open>+\<close>,
  \<open>-\<close>, \<open>*\<close> and unary minus are taken modulo \<open>2 ^ 32\<close>; comparisons read the
  word as a signed number (\<open>sint\<close>). Integer division and remainder truncate towards
  zero and have no result when the divisor is zero or when \<open>INT_MIN\<close> is divided by
  \<open>-1\<close>: both are error values of the model, next to the three exceptions that the
  library throws itself.
\<close>

subsection \<open>Machine integers and errors\<close>

type_synonym i32 = "32 word"

datatype error =
    ZeroDivisor       \<comment> \<open>\<open>std::invalid_argument(ZERO_DIVISOR_ERROR)\<close>\<close>
  | Overflow          \<comment> \<open>\<open>std::overflow_error(OVERFLOW_ERROR)\<close>\<close>
  | InvalidFormat     \<comment> \<open>\<open>std::invalid_argument(INVALID_STRING_PARAMETER_ERROR)\<close>\<close>
  | DivideByZero      \<comment> \<open>an integer \<open>/\<close> or \<open>%\<close> whose right operand is zero\<close>
  | Unrepresentable   \<comment> \<open>\<open>INT_MIN / -1\<close>, or a \<open>double\<close> outside the range of \<open>int\<close>\<close>

text \<open>
  A call that may throw and may also loop forever has the type \<open>'a outcome\<close>:
  \<open>None\<close> is a call that never returns, \<open>Some (Inl e)\<close> a call that stops with
  the error \<open>e\<close>, \<open>Some (Inr x)\<close> a call that returns \<open>x\<close>.
\<close>

type_synonym 'a outcome = "(error + 'a) option"

definition INT_MAX :: i32 where
  "INT_MAX = 2147483647"

definition INT_MIN :: i32 where
  "INT_MIN = - 2147483648"

definition in_range :: "int \<Rightarrow> bool" where
  "in_range k = (- 2147483648 \<le> k \<and> k \<le> 2147483647)"

definition idiv :: "i32 \<Rightarrow> i32 \<Rightarrow> error + i32" where
  "idiv a b =
     (if b = 0 then Inl DivideByZero
      else if a = INT_MIN \<and> b = - 1 then Inl Unrepresentable
      else Inr (word_of_int (sint a sdiv sint b)))"

definition imod :: "i32 \<Rightarrow> i32 \<Rightarrow> error + i32" where
  "imod a b =
     (if b = 0 then Inl DivideByZero
      else if a = INT_MIN \<and> b = - 1 then Inl Unrepresentable
      else Inr (word_of_int (sint a smod sint b)))"

definition iabs :: "i32 \<Rightarrow> i32" where
  "iabs x = (if sint x < 0 then - x else x)"

subsection \<open>Utilities: the overflow predicates\<close>

definition willMultiplicationOverflow :: "i32 \<Rightarrow> i32 \<Rightarrow> error + bool" where
  "willMultiplicationOverflow a b =
     (if a = 0 \<or> b = 0 then Inr False
      else if a = - 1 \<and> b = INT_MIN then Inr True
      else if b = - 1 \<and> a = INT_MIN then Inr True
      else (let result = a * b in
            case idiv result b of
              Inl e \<Rightarrow> Inl e
            | Inr q \<Rightarrow> Inr (q \<noteq> a)))"

definition willAdditionOverflow :: "i32 \<Rightarrow> i32 \<Rightarrow> bool" where
  "willAdditionOverflow a b =
     (if 0 < sint b \<and> sint (INT_MAX - b) < sint a then True
      else if sint b < 0 \<and> sint a < sint (INT_MIN - b) then True
      else False)"

definition willSubtractionOverflow :: "i32 \<Rightarrow> i32 \<Rightarrow> bool" where
  "willSubtractionOverflow a b =
     (if sint b < 0 \<and> sint (INT_MAX + b) < sint a then True
      else if 0 < sint b \<and> sint a < sint (INT_MIN + b) then True
      else False)"

text \<open>
  The operator \<open>||\<close> over calls that may stop with an error: the right operand is
  looked at only when the left one returned \<open>false\<close>.
\<close>

definition orelse :: "error + bool \<Rightarrow> error + bool \<Rightarrow> error + bool" where
  "orelse x y = (case x of Inl e \<Rightarrow> Inl e | Inr c \<Rightarrow> if c then Inr True else y)"

subsection \<open>The class Frac\<close>

record Frac =
  numerator :: i32
  denominator :: i32
  whole :: i32

text \<open>
  The rational number a triple stands for, in the words of the specification:
  \<open>whole * denominator + numerator\<close> over \<open>denominator\<close>.
\<close>

definition rational_value :: "Frac \<Rightarrow> rat" where
  "rational_value f =
     of_int (sint (whole f) * sint (denominator f) + sint (numerator f))
       / of_int (sint (denominator f))"

subsection \<open>Simplification\<close>

text \<open>
  The loop of \<open>Frac::simplify\<close> that computes the greatest common divisor. The source
  leaves it only through one of its two \<open>break\<close> statements, so the model is a
  partial function: \<open>None\<close> is the loop that runs forever. Each \<open>%=\<close> is a
  remainder that has no result when its right operand is zero.
\<close>

partial_function (option) gcd_loop :: "i32 \<Rightarrow> i32 \<Rightarrow> i32 outcome" where
  "gcd_loop a b =
     (if sint b < sint a then
        (case imod a b of
           Inl e \<Rightarrow> Some (Inl e)
         | Inr a' \<Rightarrow> if a' = 0 then Some (Inr b) else gcd_loop a' b)
      else
        (case imod b a of
           Inl e \<Rightarrow> Some (Inl e)
         | Inr b' \<Rightarrow> if b' = 0 then Some (Inr a) else gcd_loop a b'))"

declare gcd_loop.simps [code]

text \<open>
  \<open>simplify_fold\<close> is the part of \<open>Frac::simplify\<close> before the loop (the whole part
  takes the quotient, the numerator keeps the remainder, a negative remainder is moved
  into the whole part), \<open>simplify_reduce\<close> the part after it (both fields are divided
  by the divisor found and the sign is moved to the numerator).
\<close>

definition simplify_fold :: "Frac \<Rightarrow> error + Frac" where
  "simplify_fold f =
     (case idiv (numerator f) (denominator f) of
        Inl e \<Rightarrow> Inl e
      | Inr q \<Rightarrow>
          (let f1 = f\<lparr>whole := whole f + q\<rparr> in
           case imod (numerator f1) (denominator f1) of
             Inl e \<Rightarrow> Inl e
           | Inr r \<Rightarrow>
               (let f2 = f1\<lparr>numerator := r\<rparr> in
                if sint (numerator f2) < 0 \<and> whole f2 \<noteq> 0 then
                  (let f3 = f2\<lparr>numerator := numerator f2 + iabs (denominator f2)\<rparr> in
                   Inr (f3\<lparr>whole := whole f3 - (if 0 < sint (numerator f3) then 1 else 0)\<rparr>))
                else Inr f2)))"

definition simplify_reduce :: "Frac \<Rightarrow> i32 \<Rightarrow> error + Frac" where
  "simplify_reduce f gcd' =
     (case idiv (numerator f) gcd' of
        Inl e \<Rightarrow> Inl e
      | Inr n \<Rightarrow>
          (let f1 = f\<lparr>numerator := n\<rparr> in
           case idiv (denominator f1) gcd' of
             Inl e \<Rightarrow> Inl e
           | Inr d \<Rightarrow>
               (let f2 = f1\<lparr>denominator := d\<rparr> in
                if sint (denominator f2) < 0 then
                  Inr (f2\<lparr>numerator := - numerator f2, denominator := - denominator f2\<rparr>)
                else Inr f2)))"

definition simplify :: "Frac \<Rightarrow> Frac outcome" where
  "simplify f =
     (if denominator f = 0 then Some (Inr f)
      else if numerator f = 0 then Some (Inr (f\<lparr>whole := 0, denominator := 1\<rparr>))
      else
        (case simplify_fold f of
           Inl e \<Rightarrow> Some (Inl e)
         | Inr g \<Rightarrow>
             (case gcd_loop (iabs (numerator g)) (iabs (denominator g)) of
                None \<Rightarrow> None
              | Some (Inl e) \<Rightarrow> Some (Inl e)
              | Some (Inr gcd') \<Rightarrow> Some (simplify_reduce g gcd'))))"

text \<open>The static \<open>Frac::Simplify\<close> simplifies its own copy of the argument.\<close>

definition Simplify :: "Frac \<Rightarrow> Frac outcome" where
  "Simplify frac' = simplify frac'"

subsection \<open>Constructors\<close>

definition Frac_default :: Frac where
  "Frac_default = \<lparr>numerator = 0, denominator = 1, whole = 0\<rparr>"

definition Frac_int :: "i32 \<Rightarrow> Frac" where
  "Frac_int n = \<lparr>numerator = n, denominator = 1, whole = 0\<rparr>"

definition Frac_nd :: "i32 \<Rightarrow> i32 \<Rightarrow> bool \<Rightarrow> Frac outcome" where
  "Frac_nd n d isSimplifying =
     (let this = \<lparr>numerator = n, denominator = d, whole = 0\<rparr> in
      if denominator this = 0 then Some (Inl ZeroDivisor)
      else if isSimplifying then simplify this
      else Some (Inr this))"

definition Frac_wnd :: "i32 \<Rightarrow> i32 \<Rightarrow> i32 \<Rightarrow> bool \<Rightarrow> Frac outcome" where
  "Frac_wnd w n d isSimplifying =
     (let this = \<lparr>numerator = n, denominator = d, whole = w\<rparr> in
      if denominator this = 0 then Some (Inl ZeroDivisor)
      else if isSimplifying then simplify this
      else Some (Inr this))"

subsection \<open>Formatting\<close>

text \<open>\<open>std::to_string\<close> on an \<open>int\<close>: the decimal digits, after a minus sign if negative.\<close>

fun decimal :: "nat \<Rightarrow> string" where
  "decimal n =
     (if n < 10 then [char_of (48 + n)]
      else decimal (n div 10) @ [char_of (48 + n mod 10)])"

definition to_string :: "i32 \<Rightarrow> string" where
  "to_string x =
     (if sint x < 0 then CHR ''-'' # decimal (nat (- sint x))
      else decimal (nat (sint x)))"

definition toString :: "Frac \<Rightarrow> string" where
  "toString frac' =
     (if whole frac' \<noteq> 0 then
        to_string (whole frac') @ '' '' @ to_string (numerator frac') @ ''/''
          @ to_string (denominator frac')
      else to_string (numerator frac') @ ''/'' @ to_string (denominator frac'))"

subsection \<open>Arithmetic operators that return a new value\<close>

text \<open>
  \<open>Frac::operator+(const Frac&)\<close>, \<open>Frac::operator*(int)\<close>, the reversed
  \<open>operator*(int, const Frac&)\<close> and \<open>Frac::operator/(int)\<close>. Each result is built
  by the constructor \<open>Frac(int, int, bool)\<close> with its default flag \<open>false\<close>.
\<close>

definition operator_add :: "Frac \<Rightarrow> Frac \<Rightarrow> Frac outcome" where
  "operator_add this other =
     (case orelse (willMultiplicationOverflow (numerator this) (denominator other))
          (orelse (willMultiplicationOverflow (numerator other) (denominator this))
          (orelse (willMultiplicationOverflow (denominator this) (denominator other))
             (Inr (willAdditionOverflow (numerator this * denominator other)
                     (numerator other * denominator this))))) of
        Inl e \<Rightarrow> Some (Inl e)
      | Inr c \<Rightarrow>
          if c then Some (Inl Overflow)
          else Frac_nd (numerator this * denominator other + numerator other * denominator this)
                 (denominator this * denominator other) False)"

definition operator_mul_int :: "Frac \<Rightarrow> i32 \<Rightarrow> Frac outcome" where
  "operator_mul_int this value' =
     (case willMultiplicationOverflow (numerator this) value' of
        Inl e \<Rightarrow> Some (Inl e)
      | Inr c \<Rightarrow>
          if c then Some (Inl Overflow)
          else Frac_nd (numerator this * value') (denominator this) False)"

definition int_operator_mul :: "i32 \<Rightarrow> Frac \<Rightarrow> Frac outcome" where
  "int_operator_mul value' frac' =
     Frac_nd (numerator frac' * value') (denominator frac') False"

definition operator_div_int :: "Frac \<Rightarrow> i32 \<Rightarrow> Frac outcome" where
  "operator_div_int this value' =
     (if numerator this = 0 then Some (Inl ZeroDivisor)
      else
        (case willMultiplicationOverflow (denominator this) value' of
           Inl e \<Rightarrow> Some (Inl e)
         | Inr c \<Rightarrow>
             if c then Some (Inl Overflow)
             else Frac_nd (denominator this * value') (numerator this) False))"

subsection \<open>Compound assignment, increment and decrement\<close>

text \<open>
  A member function that changes \<open>*this\<close> returns the object as the call leaves it,
  paired with the error it stopped with, if any. The assignments are made one after
  the other, as the source makes them.
\<close>

definition operator_add_assign_int :: "Frac \<Rightarrow> i32 \<Rightarrow> Frac \<times> error option" where
  "operator_add_assign_int this value' =
     (case willMultiplicationOverflow (denominator this) value' of
        Inl e \<Rightarrow> (this, Some e)
      | Inr c \<Rightarrow>
          if c then (this, Some Overflow)
          else if willAdditionOverflow (numerator this) (denominator this * value')
          then (this, Some Overflow)
          else (this\<lparr>numerator := numerator this + denominator this * value'\<rparr>, None))"

definition operator_sub_assign_int :: "Frac \<Rightarrow> i32 \<Rightarrow> Frac \<times> error option" where
  "operator_sub_assign_int this value' =
     (case willMultiplicationOverflow (denominator this) value' of
        Inl e \<Rightarrow> (this, Some e)
      | Inr c \<Rightarrow>
          if c then (this, Some Overflow)
          else if willSubtractionOverflow (numerator this) (denominator this * value')
          then (this, Some Overflow)
          else (this\<lparr>numerator := numerator this - denominator this * value'\<rparr>, None))"

definition operator_mul_assign_int :: "Frac \<Rightarrow> i32 \<Rightarrow> Frac \<times> error option" where
  "operator_mul_assign_int this value' =
     (case willMultiplicationOverflow (numerator this) value' of
        Inl e \<Rightarrow> (this, Some e)
      | Inr c \<Rightarrow>
          if c then (this, Some Overflow)
          else (this\<lparr>numerator := numerator this * value'\<rparr>, None))"

definition operator_div_assign_int :: "Frac \<Rightarrow> i32 \<Rightarrow> Frac \<times> error option" where
  "operator_div_assign_int this value' =
     (if numerator this = 0 then (this, Some ZeroDivisor)
      else
        (case willMultiplicationOverflow value' (denominator this) of
           Inl e \<Rightarrow> (this, Some e)
         | Inr c \<Rightarrow>
             if c then (this, Some Overflow)
             else
               (let this1 = this\<lparr>numerator := denominator this * value'\<rparr>;
                    this2 = this1\<lparr>denominator := numerator this1\<rparr>
                in (this2, None))))"

text \<open>
  The forms that take another \<open>Frac\<close>; \<open>other\<close> is an object different from
  \<open>*this\<close>.
\<close>

definition operator_add_assign :: "Frac \<Rightarrow> Frac \<Rightarrow> Frac \<times> error option" where
  "operator_add_assign this other =
     (case orelse (willMultiplicationOverflow (numerator this) (denominator other))
          (orelse (willMultiplicationOverflow (numerator other) (denominator this))
          (orelse (willMultiplicationOverflow (denominator this) (denominator other))
             (Inr (willAdditionOverflow (numerator this * denominator other)
                     (numerator other * denominator this))))) of
        Inl e \<Rightarrow> (this, Some e)
      | Inr c \<Rightarrow>
          if c then (this, Some Overflow)
          else
            (let newNumerator =
                   numerator this * denominator other + numerator other * denominator this;
                 newDenominator = denominator this * denominator other;
                 this1 = this\<lparr>numerator := newNumerator\<rparr>;
                 this2 = this1\<lparr>denominator := newDenominator\<rparr>
             in (this2, None)))"

definition operator_sub_assign :: "Frac \<Rightarrow> Frac \<Rightarrow> Frac \<times> error option" where
  "operator_sub_assign this other =
     (case orelse (willMultiplicationOverflow (numerator this) (denominator other))
          (orelse (willMultiplicationOverflow (denominator this) (numerator other))
             (willMultiplicationOverflow (denominator this) (denominator other))) of
        Inl e \<Rightarrow> (this, Some e)
      | Inr c \<Rightarrow>
          if c then (this, Some Overflow)
          else if willSubtractionOverflow (numerator this * denominator other)
                    (denominator this * numerator other)
          then (this, Some Overflow)
          else
            (let this1 = this\<lparr>numerator :=
                   numerator this * denominator other - denominator this * numerator other\<rparr>;
                 this2 = this1\<lparr>denominator := denominator this1 * denominator other\<rparr>
             in (this2, None)))"

definition operator_mul_assign :: "Frac \<Rightarrow> Frac \<Rightarrow> Frac \<times> error option" where
  "operator_mul_assign this other =
     (case orelse (willMultiplicationOverflow (numerator this) (numerator other))
             (willMultiplicationOverflow (denominator this) (denominator other)) of
        Inl e \<Rightarrow> (this, Some e)
      | Inr c \<Rightarrow>
          if c then (this, Some Overflow)
          else
            (let this1 = this\<lparr>numerator := numerator this * numerator other\<rparr>;
                 this2 = this1\<lparr>denominator := denominator this1 * denominator other\<rparr>
             in (this2, None)))"

definition operator_div_assign :: "Frac \<Rightarrow> Frac \<Rightarrow> Frac \<times> error option" where
  "operator_div_assign this other =
     (if numerator other = 0 \<or> denominator this = 0 then (this, Some ZeroDivisor)
      else
        (case orelse (willMultiplicationOverflow (numerator this) (denominator other))
                (willMultiplicationOverflow (denominator this) (numerator other)) of
           Inl e \<Rightarrow> (this, Some e)
         | Inr c \<Rightarrow>
             if c then (this, Some Overflow)
             else
               (let this1 = this\<lparr>numerator := numerator this * denominator other\<rparr>;
                    this2 = this1\<lparr>denominator := denominator this1 * numerator other\<rparr>
                in (this2, None))))"

text \<open>
  \<open>incrementLogic\<close> and \<open>decrementLogic\<close> receive the three fields of the object by
  reference; the record stands for the three of them.
\<close>

definition incrementLogic :: "Frac \<Rightarrow> bool \<Rightarrow> Frac \<times> error option" where
  "incrementLogic f isPrefix =
     (if whole f \<noteq> 0 then
        (let f1 = f\<lparr>numerator := numerator f + whole f * denominator f\<rparr> in
         if willAdditionOverflow (numerator f1) 1 then (f1, Some Overflow)
         else
           (let f2 = (if isPrefix then f1\<lparr>numerator := numerator f1 + 1\<rparr>
                      else f1\<lparr>numerator := numerator f1 + 1\<rparr>) in
            case idiv (numerator f2) (denominator f2) of
              Inl e \<Rightarrow> (f2, Some e)
            | Inr q \<Rightarrow>
                (let f3 = f2\<lparr>whole := q\<rparr> in
                 case imod (numerator f3) (denominator f3) of
                   Inl e \<Rightarrow> (f3, Some e)
                 | Inr r \<Rightarrow>
                     (let f4 = f3\<lparr>numerator := r\<rparr> in
                      if sint (denominator f4) < 0 then
                        (f4\<lparr>numerator := - numerator f4, denominator := - denominator f4\<rparr>,
                         None)
                      else (f4, None)))))
      else if willAdditionOverflow (numerator f) 1 then (f, Some Overflow)
      else if isPrefix then (f\<lparr>numerator := numerator f + 1\<rparr>, None)
      else (f\<lparr>numerator := numerator f + 1\<rparr>, None))"

definition decrementLogic :: "Frac \<Rightarrow> bool \<Rightarrow> Frac \<times> error option" where
  "decrementLogic f isPrefix =
     (if whole f \<noteq> 0 then
        (let f1 = f\<lparr>numerator := numerator f + whole f * denominator f\<rparr> in
         if willAdditionOverflow (numerator f1) (- 1) then (f1, Some Overflow)
         else
           (let f2 = (if isPrefix then f1\<lparr>numerator := numerator f1 - 1\<rparr>
                      else f1\<lparr>numerator := numerator f1 - 1\<rparr>) in
            case idiv (numerator f2) (denominator f2) of
              Inl e \<Rightarrow> (f2, Some e)
            | Inr q \<Rightarrow>
                (let f3 = f2\<lparr>whole := q\<rparr> in
                 case imod (numerator f3) (denominator f3) of
                   Inl e \<Rightarrow> (f3, Some e)
                 | Inr r \<Rightarrow>
                     (let f4 = f3\<lparr>numerator := r\<rparr> in
                      if sint (denominator f4) < 0 then
                        (f4\<lparr>numerator := - numerator f4, denominator := - denominator f4\<rparr>,
                         None)
                      else (f4, None)))))
      else if willAdditionOverflow (numerator f) 1 then (f, Some Overflow)
      else if isPrefix then (f\<lparr>numerator := numerator f - 1\<rparr>, None)
      else (f\<lparr>numerator := numerator f - 1\<rparr>, None))"

text \<open>
  The prefix forms return \<open>*this\<close>, which is the first component. The postfix forms
  return the copy they took before the call: the third component, there when no error
  was raised.
\<close>

definition operator_pre_inc :: "Frac \<Rightarrow> Frac \<times> error option" where
  "operator_pre_inc this = incrementLogic this True"

definition operator_pre_dec :: "Frac \<Rightarrow> Frac \<times> error option" where
  "operator_pre_dec this = decrementLogic this True"

definition operator_post_inc :: "Frac \<Rightarrow> Frac \<times> error option \<times> Frac option" where
  "operator_post_inc this =
     (let temp = this in
      case incrementLogic this False of
        (this', None) \<Rightarrow> (this', None, Some temp)
      | (this', Some e) \<Rightarrow> (this', Some e, None))"

definition operator_post_dec :: "Frac \<Rightarrow> Frac \<times> error option \<times> Frac option" where
  "operator_post_dec this =
     (let temp = this in
      case decrementLogic this False of
        (this', None) \<Rightarrow> (this', None, Some temp)
      | (this', Some e) \<Rightarrow> (this', Some e, None))"

subsection \<open>Comparison operators\<close>

definition operator_eq :: "Frac \<Rightarrow> Frac \<Rightarrow> bool" where
  "operator_eq this other =
     (let lhsNumerator = whole this * denominator this + numerator this;
          rhsNumerator = whole other * denominator other + numerator other
      in lhsNumerator * denominator other = rhsNumerator * denominator this)"

definition operator_ne :: "Frac \<Rightarrow> Frac \<Rightarrow> bool" where
  "operator_ne this other = (\<not> operator_eq this other)"

definition operator_ge :: "Frac \<Rightarrow> Frac \<Rightarrow> bool" where
  "operator_ge this other =
     (let lhsNumerator = whole this * denominator this + numerator this;
          rhsNumerator = whole other * denominator other + numerator other
      in sint (rhsNumerator * denominator this) \<le> sint (lhsNumerator * denominator other))"

definition operator_le :: "Frac \<Rightarrow> Frac \<Rightarrow> bool" where
  "operator_le this other =
     (let lhsNumerator = whole this * denominator this + numerator this;
          rhsNumerator = whole other * denominator other + numerator other
      in sint (lhsNumerator * denominator other) \<le> sint (rhsNumerator * denominator this))"

definition operator_gt :: "Frac \<Rightarrow> Frac \<Rightarrow> bool" where
  "operator_gt this other =
     (let lhsNumerator = whole this * denominator this + numerator this;
          rhsNumerator = whole other * denominator other + numerator other
      in sint (rhsNumerator * denominator this) < sint (lhsNumerator * denominator other))"

definition operator_lt :: "Frac \<Rightarrow> Frac \<Rightarrow> bool" where
  "operator_lt this other =
     (let lhsNumerator = whole this * denominator this + numerator this;
          rhsNumerator = whole other * denominator other + numerator other
      in sint (lhsNumerator * denominator other) < sint (rhsNumerator * denominator this))"

text \<open>
  The improper numerator that every comparison starts from, as a number, and the
  condition that neither cross product of a comparison leaves the 32-bit range.
\<close>

definition improper :: "Frac \<Rightarrow> int" where
  "improper f = sint (whole f) * sint (denominator f) + sint (numerator f)"

definition comparable :: "Frac \<Rightarrow> Frac \<Rightarrow> bool" where
  "comparable a b =
     (in_range (improper a * sint (denominator b)) \<and>
      in_range (improper b * sint (denominator a)))"

subsection \<open>Assignment\<close>

text \<open>
  \<open>Frac::operator=(const Frac&)\<close>. When \<open>other\<close> is the object itself the source
  assigns nothing; the two assignments below then leave the record as it is.
\<close>

definition operator_assign :: "Frac \<Rightarrow> Frac \<Rightarrow> Frac" where
  "operator_assign this other =
     this\<lparr>numerator := numerator other, denominator := denominator other\<rparr>"

subsection \<open>Parsing\<close>

text \<open>
  The stream is the list of characters not yet consumed; \<open>is.peek()\<close> is its head and
  \<open>EOF\<close> the empty list. \<open>parseNumber\<close> builds its number in a \<open>double\<close>
  (\<open>temp * std::pow(10,1) + digit\<close>, exact at these magnitudes) and converts it back
  to \<open>int\<close>, a conversion with no result when the number is above \<open>INT_MAX\<close>.
\<close>

definition isdigit :: "char \<Rightarrow> bool" where
  "isdigit c = ((48::nat) \<le> of_char c \<and> of_char c \<le> (57::nat))"

definition consumeWhitespace :: "string \<Rightarrow> string" where
  "consumeWhitespace inp = dropWhile (\<lambda>c. c = CHR '' '' \<or> c = CHR 0x09) inp"

definition isDigit :: "string \<Rightarrow> bool" where
  "isDigit inp = (case inp of [] \<Rightarrow> False | c # _ \<Rightarrow> isdigit c)"

fun parseNumber_from :: "i32 \<Rightarrow> string \<Rightarrow> error + i32 \<times> string" where
  "parseNumber_from temp [] = Inr (temp, [])"
| "parseNumber_from temp (c # cs) =
     (if isdigit c then
        (let v = sint temp * 10 + (of_char c - 48) in
         if in_range v then parseNumber_from (word_of_int v) cs
         else Inl Unrepresentable)
      else Inr (temp, c # cs))"

definition parseNumber :: "string \<Rightarrow> error + i32 \<times> string" where
  "parseNumber inp = parseNumber_from 0 inp"

text \<open>
  \<open>parse_commit\<close> is the end of \<open>Frac::parseFromStream\<close>, from the check of the
  denominator on; \<open>whole'\<close> is the local variable \<open>whole\<close> of the source, which hides
  the field of the same name.
\<close>

definition parse_commit :: "Frac \<Rightarrow> i32 \<Rightarrow> i32 \<Rightarrow> i32 \<Rightarrow> bool \<Rightarrow> Frac outcome" where
  "parse_commit this whole' num denom isSimplifying =
     (if denom = 0 then Some (Inl ZeroDivisor)
      else
        (let this1 = this\<lparr>denominator := denom\<rparr> in
         case
           (if whole' \<noteq> 0 then
              (case willMultiplicationOverflow (denominator this1) whole' of
                 Inl e \<Rightarrow> Inl e
               | Inr c \<Rightarrow>
                   if c then Inl Overflow
                   else
                     (let this2 = this1\<lparr>numerator := denominator this1 * whole'\<rparr> in
                      if willAdditionOverflow (numerator this2) num then Inl Overflow
                      else Inr (this2\<lparr>numerator := numerator this2 + num\<rparr>)))
            else Inr (this1\<lparr>numerator := num\<rparr>))
         of
           Inl e \<Rightarrow> Some (Inl e)
         | Inr this3 \<Rightarrow> if isSimplifying then simplify this3 else Some (Inr this3)))"

definition parse_denominator :: "Frac \<Rightarrow> i32 \<Rightarrow> i32 \<Rightarrow> string \<Rightarrow> bool \<Rightarrow> Frac outcome" where
  "parse_denominator this whole' num inp isSimplifying =
     (let s1 = consumeWhitespace inp in
      if isDigit s1 then
        (case parseNumber s1 of
           Inl e \<Rightarrow> Some (Inl e)
         | Inr (denom, _) \<Rightarrow> parse_commit this whole' num denom isSimplifying)
      else Some (Inl InvalidFormat))"

definition parseFromStream :: "Frac \<Rightarrow> string \<Rightarrow> bool \<Rightarrow> Frac outcome" where
  "parseFromStream this inp isSimplifying =
     (let s1 = consumeWhitespace inp in
      if isDigit s1 then
        (case parseNumber s1 of
           Inl e \<Rightarrow> Some (Inl e)
         | Inr (num, s2) \<Rightarrow>
             (case s2 of
                [] \<Rightarrow> Some (Inr (this\<lparr>numerator := num, denominator := num\<rparr>))
              | ch # s3 \<Rightarrow>
                  if ch = CHR '' '' then
                    (let s4 = consumeWhitespace s3 in
                     if isDigit s4 then
                       (case parseNumber s4 of
                          Inl e \<Rightarrow> Some (Inl e)
                        | Inr (num', s5) \<Rightarrow>
                            (case s5 of
                               [] \<Rightarrow> Some (Inl InvalidFormat)
                             | ch' # s6 \<Rightarrow>
                                 if ch' = CHR ''/'' then
                                   parse_denominator this num num' s6 isSimplifying
                                 else Some (Inl InvalidFormat)))
                     else Some (Inl InvalidFormat))
                  else if ch = CHR ''/'' then
                    parse_denominator this 0 num s3 isSimplifying
                  else Some (Inl InvalidFormat)))
      else Some (Inl InvalidFormat))"

text \<open>
  \<open>Frac::Frac(const char*, bool)\<close> initialises \<open>whole\<close> alone; \<open>n0\<close> and \<open>d0\<close>
  are whatever the other two fields hold before the parser assigns them.
\<close>

definition Frac_str :: "i32 \<Rightarrow> i32 \<Rightarrow> string \<Rightarrow> bool \<Rightarrow> Frac outcome" where
  "Frac_str n0 d0 fracStr isSimplifying =
     parseFromStream \<lparr>numerator = n0, denominator = d0, whole = 0\<rparr> fracStr isSimplifying"

section \<open>Properties\<close>

subsection \<open>Signed division on the integers, and words read as signed numbers\<close>

lemma smod_abs_less: "b \<noteq> 0 \<Longrightarrow> \<bar>(a::int) smod b\<bar> < \<bar>b\<bar>"
  by (simp add: signed_modulo_int_def abs_mult abs_sgn_eq)

lemma sdiv_mult_cancel:
  fixes a b :: int
  assumes "b \<noteq> 0"
  shows "(a * b) sdiv b = a"
proof -
  have d: "\<bar>a * b\<bar> div \<bar>b\<bar> = \<bar>a\<bar>"
    using assms by (simp add: abs_mult)
  have s: "sgn b * sgn b = 1"
    using assms by (simp add: sgn_if)
  have "(a * b) sdiv b = sgn a * (sgn b * sgn b) * \<bar>a\<bar>"
    unfolding signed_divide_int_def d by (simp add: sgn_mult)
  also have "\<dots> = a"
    unfolding s by (simp add: sgn_mult_abs)
  finally show ?thesis .
qed

lemma sdiv_abs_le: "\<bar>(a::int) sdiv b\<bar> \<le> \<bar>a\<bar>"
proof -
  have "0 \<le> \<bar>a\<bar> div \<bar>b\<bar>"
    using div_int_pos_iff by fastforce
  then have "\<bar>a sdiv b\<bar> \<le> \<bar>a\<bar> div \<bar>b\<bar>"
    by (simp add: signed_divide_int_def abs_mult abs_sgn_eq)
  also have "\<dots> \<le> \<bar>a\<bar>"
    using int_div_le_self by force
  finally show ?thesis .
qed

lemma sdiv_smod_decomp: "(a::int) = (a sdiv b) * b + a smod b"
  by (simp add: sdiv_mult_smod_eq)

lemma signed_take_bit_31:
  "signed_take_bit 31 (p::int) = (p + 2147483648) mod 4294967296 - 2147483648"
  by (simp add: signed_take_bit_eq_take_bit_shift take_bit_eq_mod)

lemma signed_take_bit_31_decomp:
  obtains k :: int where "p = signed_take_bit 31 p + 4294967296 * k"
proof
  show "p = signed_take_bit 31 p + 4294967296 * ((p + 2147483648) div 4294967296)"
    unfolding signed_take_bit_31
    using div_mult_mod_eq [of "p + 2147483648" 4294967296] by linarith
qed

lemma sint_range32: "- 2147483648 \<le> sint (x::i32) \<and> sint x < 2147483648"
  using sint_ge [of x] sint_lt [of x] by simp

lemma sint_INT_MIN: "sint INT_MIN = - 2147483648"
  by (simp add: INT_MIN_def)

lemma sint_INT_MAX: "sint INT_MAX = 2147483647"
  by (simp add: INT_MAX_def)

lemma sint_of_int32: "sint (word_of_int k :: i32) = signed_take_bit 31 k"
  by (simp add: sint_sbintrunc')

lemma sint_mult32: "sint (a * b :: i32) = signed_take_bit 31 (sint a * sint b)"
  by (simp add: sint_word_mult)

lemma i32_eq_iff: "(x::i32) = y \<longleftrightarrow> sint x = sint y"
  by (auto dest: arg_cong [where f = "\<lambda>k. word_of_int k :: i32"])

lemma sint_of_int_in_range: "in_range k \<Longrightarrow> sint (word_of_int k :: i32) = k"
  by (simp add: sint_of_int32 in_range_def signed_take_bit_int_eq_self)

lemma smod_nonneg: "0 \<le> a \<Longrightarrow> 0 < b \<Longrightarrow> (a::int) smod b = a mod b"
  by (simp add: signed_modulo_int_def sgn_if)

lemma sdiv_nonneg: "0 \<le> a \<Longrightarrow> 0 < b \<Longrightarrow> (a::int) sdiv b = a div b"
  by (simp add: signed_divide_int_def sgn_if)

lemma sint_add_in_range:
  "in_range (sint a + sint b) \<Longrightarrow> sint (a + b :: i32) = sint a + sint b"
  using sint_of_int_in_range [of "sint a + sint b"] by simp

lemma sint_iabs: "sint x \<noteq> - 2147483648 \<Longrightarrow> sint (iabs x) = \<bar>sint x\<bar>"
proof -
  assume h: "sint x \<noteq> - 2147483648"
  have "in_range (- sint x)"
    using sint_range32 [of x] h by (simp add: in_range_def)
  then have "sint (- x) = - sint x"
    using sint_of_int_in_range [of "- sint x"] by simp
  then show ?thesis by (simp add: iabs_def)
qed

lemma positive_not_special:
  "0 < sint (b::i32) \<Longrightarrow> b \<noteq> 0 \<and> b \<noteq> - 1"
  by auto

lemma sdiv_small: "\<bar>n\<bar> < d \<Longrightarrow> (n::int) sdiv d = 0"
  by (simp add: signed_divide_int_def)

lemma smod_small: "\<bar>n\<bar> < d \<Longrightarrow> (n::int) smod d = n"
  by (simp add: signed_modulo_int_def sgn_mult_abs)

lemma smod_multiple: "d dvd n \<Longrightarrow> (n::int) smod d = 0"
  by (simp add: signed_modulo_int_def)

lemma idiv_one: "idiv x 1 = Inr x"
  by (simp add: idiv_def)

lemma sdiv_exact:
  fixes n g :: int
  assumes "0 < g" and "g dvd n"
  shows "n sdiv g = n div g"
proof -
  have "n = (n div g) * g" using assms(2) by simp
  then have "n sdiv g = ((n div g) * g) sdiv g" by simp
  also have "\<dots> = n div g" using assms(1) by (simp only: sdiv_mult_cancel)
  finally show ?thesis .
qed

subsection \<open>The multiplication check\<close>

text \<open>
  Past its three guards, \<open>willMultiplicationOverflow\<close> divides the wrapped product by
  \<open>b\<close>. That division always has a result, and the quotient differs from \<open>a\<close>
  exactly when the product of the two numbers is not a 32-bit value.
\<close>

lemma willMultiplicationOverflow_division:
  fixes a b :: i32
  assumes a0: "a \<noteq> 0" and b0: "b \<noteq> 0"
    and g1: "\<not> (a = - 1 \<and> b = INT_MIN)" and g2: "\<not> (b = - 1 \<and> a = INT_MIN)"
  shows "idiv (a * b) b = Inr (word_of_int (sint (a * b) sdiv sint b))"
    and "(word_of_int (sint (a * b) sdiv sint b) \<noteq> a) = (\<not> in_range (sint a * sint b))"
proof -
  define A B P R S M where "A = sint a" and "B = sint b" and "P = A * B"
    and "R = sint (a * b)" and "S = R sdiv B" and "M = R smod B"
  have rA: "- 2147483648 \<le> A" "A < 2147483648"
    and rB: "- 2147483648 \<le> B" "B < 2147483648"
    using sint_range32 [of a] sint_range32 [of b] by (simp_all add: A_def B_def)
  have B0: "B \<noteq> 0"
    using b0 by (simp add: B_def i32_eq_iff)
  have "R = signed_take_bit 31 P"
    by (simp add: R_def P_def A_def B_def sint_mult32)
  then obtain k where k: "P = R + 4294967296 * k"
    using signed_take_bit_31_decomp [of P] by metis
  have kc: "k \<le> - 1 \<or> k = 0 \<or> 1 \<le> k" by linarith
  have rR: "- 2147483648 \<le> R" "R < 2147483648"
    using sint_range32 [of "a * b"] by (simp_all add: R_def)
  have dec: "R = S * B + M"
    unfolding S_def M_def by (rule sdiv_smod_decomp)
  have M: "\<bar>M\<bar> < \<bar>B\<bar>"
    unfolding M_def using B0 by (rule smod_abs_less)
  have S: "\<bar>S\<bar> \<le> \<bar>R\<bar>"
    unfolding S_def by (rule sdiv_abs_le)
  have nomin: "\<not> (B = - 1 \<and> A = - 2147483648)"
    using g2 by (auto simp add: A_def B_def i32_eq_iff sint_INT_MIN)
  have nofault: "\<not> (R = - 2147483648 \<and> B = - 1)"
  proof
    assume h: "R = - 2147483648 \<and> B = - 1"
    then have "P = - A" by (simp add: P_def)
    with k h rA nomin kc show False by linarith
  qed
  then have "\<not> (a * b = INT_MIN \<and> b = - 1)"
    by (auto simp add: R_def B_def sint_INT_MIN)
  with b0 show "idiv (a * b) b = Inr (word_of_int (sint (a * b) sdiv sint b))"
    by (simp add: idiv_def)
  have eq: "(word_of_int S = a) = (signed_take_bit 31 S = A)"
    by (simp add: i32_eq_iff sint_of_int32 A_def)
  have "(signed_take_bit 31 S = A) = in_range P"
  proof (cases "in_range P")
    case True
    then have "R = P" using k kc rR unfolding in_range_def by linarith
    then have "S = A" by (simp add: S_def P_def sdiv_mult_cancel B0)
    moreover have "signed_take_bit 31 A = A"
      unfolding A_def by (simp flip: sint_of_int32)
    ultimately have "signed_take_bit 31 S = A" by simp
    with True show ?thesis by simp
  next
    case False
    have "signed_take_bit 31 S \<noteq> A"
    proof
      assume h: "signed_take_bit 31 S = A"
      have rS: "- 2147483648 \<le> S" "S \<le> 2147483648"
        using S rR by linarith+
      show False
      proof (cases "S = 2147483648")
        case True
        then have R': "R = - 2147483648" using S rR by linarith
        with dec True have "M = - 2147483648 - 2147483648 * B" by simp
        with M have "B = - 1" by linarith
        with nofault R' show False by simp
      next
        case below: False
        have "signed_take_bit 31 S = S"
          using rS below by (simp add: signed_take_bit_int_eq_self)
        with h have "S = A" by simp
        with dec have "R = P + M" by (simp add: P_def)
        with k M rB rR False kc show False unfolding in_range_def by linarith
      qed
    qed
    with False show ?thesis by simp
  qed
  then show "(word_of_int (sint (a * b) sdiv sint b) \<noteq> a) = (\<not> in_range (sint a * sint b))"
    using eq by (simp add: S_def R_def B_def P_def A_def)
qed

lemma willMultiplicationOverflow_eq:
  "willMultiplicationOverflow a b = Inr (\<not> in_range (sint a * sint b))"
proof -
  consider "a = 0 \<or> b = 0"
    | "a \<noteq> 0" "b \<noteq> 0" "a = - 1 \<and> b = INT_MIN"
    | "a \<noteq> 0" "b \<noteq> 0" "\<not> (a = - 1 \<and> b = INT_MIN)" "b = - 1 \<and> a = INT_MIN"
    | "a \<noteq> 0" "b \<noteq> 0" "\<not> (a = - 1 \<and> b = INT_MIN)" "\<not> (b = - 1 \<and> a = INT_MIN)"
    by blast
  then show ?thesis
  proof cases
    case 1
    then show ?thesis by (auto simp add: willMultiplicationOverflow_def in_range_def)
  next
    case 2
    then show ?thesis by (simp add: willMultiplicationOverflow_def in_range_def sint_INT_MIN)
  next
    case 3
    then show ?thesis by (simp add: willMultiplicationOverflow_def in_range_def sint_INT_MIN)
  next
    case 4
    show ?thesis
      using 4 willMultiplicationOverflow_division [OF 4]
      by (auto simp add: willMultiplicationOverflow_def)
  qed
qed

lemma no_overflow_product:
  assumes "willMultiplicationOverflow a b = Inr False"
  shows "sint (a * b) = sint a * sint b"
proof -
  from assms have "in_range (sint a * sint b)"
    by (simp add: willMultiplicationOverflow_eq)
  then show ?thesis
    using sint_of_int_in_range [of "sint a * sint b"] by simp
qed

text \<open>
  C9. For all 32-bit signed integers \<open>a\<close> and \<open>b\<close>, \<open>willMultiplicationOverflow\<close>
  returns (it never stops at its division), and it returns \<open>true\<close> exactly when the
  product of the two numbers lies outside \<open>[-2^31, 2^31 - 1]\<close>, the product
  \<open>INT_MIN * -1\<close> included.
\<close>

theorem willMultiplicationOverflow_iff_out_of_range:
  "willMultiplicationOverflow a b =
     Inr (sint a * sint b < - 2147483648 \<or> 2147483647 < sint a * sint b) \<and>
   willMultiplicationOverflow INT_MIN (- 1) = Inr True \<and>
   willMultiplicationOverflow (- 1) INT_MIN = Inr True"
proof (intro conjI)
  have "(\<not> in_range (sint a * sint b)) =
      (sint a * sint b < - 2147483648 \<or> 2147483647 < sint a * sint b)"
    by (auto simp add: in_range_def)
  then show "willMultiplicationOverflow a b =
     Inr (sint a * sint b < - 2147483648 \<or> 2147483647 < sint a * sint b)"
    by (simp add: willMultiplicationOverflow_eq)
  show "willMultiplicationOverflow INT_MIN (- 1) = Inr True"
    by (simp add: willMultiplicationOverflow_def INT_MIN_def)
  show "willMultiplicationOverflow (- 1) INT_MIN = Inr True"
    by (simp add: willMultiplicationOverflow_def INT_MIN_def)
qed

subsection \<open>Evaluation on given arguments\<close>

lemmas eval_defs = willMultiplicationOverflow_def willAdditionOverflow_def
  willSubtractionOverflow_def orelse_def idiv_def imod_def iabs_def INT_MIN_def INT_MAX_def
  signed_divide_int_def signed_modulo_int_def Let_def

subsection \<open>The denominator is not zero\<close>

text \<open>
  The constructors refuse a zero denominator, and the divisions that build their result
  through a constructor or multiply two non-zero numbers without overflow keep the
  denominator away from zero.
\<close>

lemma Frac_nd_denominator:
  "Frac_nd n d False = Some (Inr f) \<Longrightarrow> denominator f \<noteq> 0"
  by (auto simp add: Frac_nd_def Let_def split: if_splits)

lemma Frac_wnd_denominator:
  "Frac_wnd w n d False = Some (Inr f) \<Longrightarrow> denominator f \<noteq> 0"
  by (auto simp add: Frac_wnd_def Let_def split: if_splits)

lemma operator_div_int_denominator:
  "operator_div_int this v = Some (Inr f) \<Longrightarrow> denominator f \<noteq> 0"
  by (auto simp add: operator_div_int_def Frac_nd_def Let_def split: if_splits sum.splits)

lemma no_overflow_product_nonzero:
  assumes "willMultiplicationOverflow a b = Inr False" and "a \<noteq> 0" and "b \<noteq> 0"
  shows "a * b \<noteq> 0"
proof -
  have "sint (a * b) = sint a * sint b"
    using assms(1) by (rule no_overflow_product)
  moreover have "sint a \<noteq> 0" "sint b \<noteq> 0"
    using assms(2,3) by (simp_all add: i32_eq_iff)
  ultimately show ?thesis by (simp add: i32_eq_iff)
qed

lemma operator_div_assign_denominator:
  assumes "operator_div_assign this other = (this', None)"
  shows "denominator this' \<noteq> 0"
proof -
  from assms have n: "numerator other \<noteq> 0" and d: "denominator this \<noteq> 0"
    by (auto simp add: operator_div_assign_def split: if_splits)
  from assms n d have "willMultiplicationOverflow (denominator this) (numerator other) = Inr False"
    and "denominator this' = denominator this * numerator other"
    by (auto simp add: operator_div_assign_def orelse_def Let_def split: if_splits sum.splits)
  with n d show ?thesis
    by (simp add: no_overflow_product_nonzero)
qed

lemma operator_div_assign_int_by_zero:
  "numerator this \<noteq> 0 \<Longrightarrow>
     operator_div_assign_int this 0 = (this\<lparr>numerator := 0, denominator := 0\<rparr>, None)"
  by (simp add: operator_div_assign_int_def willMultiplicationOverflow_def Let_def)

text \<open>
  C1. Claim: the denominator of every constructed value is not zero and no operation
  makes it zero; in particular \<open>a /= n\<close>, for a \<open>Frac\<close> \<open>a\<close> and an integer
  \<open>n\<close>, either raises an error or leaves \<open>a\<close> with a non-zero denominator.
  The code breaks the claim: \<open>Frac::operator/=(int)\<close> stores
  \<open>denominator * value\<close> in the numerator and then copies that new numerator into the
  denominator. For \<open>a = Frac(1, 2)\<close> and \<open>n = 0\<close> no check fires, no error is
  raised, and \<open>a\<close> is left as \<open>0/0\<close>.
\<close>

theorem operator_div_assign_int_zero_denominator:
  "Frac_nd 1 2 False = Some (Inr \<lparr>numerator = 1, denominator = 2, whole = 0\<rparr>) \<and>
   operator_div_assign_int \<lparr>numerator = 1, denominator = 2, whole = 0\<rparr> 0
     = (\<lparr>numerator = 0, denominator = 0, whole = 0\<rparr>, None)"
  by (simp add: Frac_nd_def operator_div_assign_int_def willMultiplicationOverflow_def)

subsection \<open>The loop of simplify\<close>

text \<open>
  On two positive numbers the loop returns their greatest common divisor; entered with
  a zero first operand it stops at \<open>b %= a\<close>.
\<close>

lemma imod_positive:
  assumes "0 \<le> sint a" and "0 < sint b"
  shows "imod a b = Inr (word_of_int (sint a mod sint b))"
    and "sint (word_of_int (sint a mod sint b) :: i32) = sint a mod sint b"
proof -
  have b: "b \<noteq> 0" "b \<noteq> - 1"
    using assms(2) by auto
  then show "imod a b = Inr (word_of_int (sint a mod sint b))"
    using assms by (simp add: imod_def smod_nonneg)
  have "0 \<le> sint a mod sint b" "sint a mod sint b < sint b"
    using assms(2) by simp_all
  with sint_range32 [of b] have "in_range (sint a mod sint b)"
    by (simp add: in_range_def)
  then show "sint (word_of_int (sint a mod sint b) :: i32) = sint a mod sint b"
    by (rule sint_of_int_in_range)
qed

lemma gcd_loop_positive:
  "0 < sint a \<Longrightarrow> 0 < sint b \<Longrightarrow>
     gcd_loop a b = Some (Inr (word_of_int (gcd (sint a) (sint b))))"
proof (induction "nat (sint a + sint b)" arbitrary: a b rule: less_induct)
  case less
  define A B where "A = sint a" and "B = sint b"
  have pos: "0 < A" "0 < B" using less.prems by (simp_all add: A_def B_def)
  show ?case
  proof (cases "B < A")
    case True
    define a' :: i32 where "a' = word_of_int (A mod B)"
    have m: "imod a b = Inr a'" and s: "sint a' = A mod B"
      using imod_positive [of a b] pos by (simp_all add: a'_def A_def B_def)
    show ?thesis
    proof (cases "A mod B = 0")
      case z: True
      then have "a' = 0" by (simp add: a'_def)
      then have "gcd_loop a b = Some (Inr b)"
        using True m by (subst gcd_loop.simps) (simp add: A_def B_def)
      moreover have "gcd A B = B"
        using z pos by (metis gcd.commute gcd_red_int gcd_0_int abs_of_pos)
      ultimately show ?thesis by (simp add: A_def B_def)
    next
      case nz: False
      then have a0: "a' \<noteq> 0" using s by auto
      have sp: "0 < sint a'" using s nz pos
        by (metis Euclidean_Rings.pos_mod_sign less_le)
      have "sint a' < B" using s pos by simp
      then have "nat (sint a' + sint b) < nat (sint a + sint b)"
        using True pos by (simp add: A_def B_def)
      from less.hyps [OF this sp less.prems(2)]
      have "gcd_loop a' b = Some (Inr (word_of_int (gcd (A mod B) B)))"
        by (simp add: s B_def)
      moreover have "gcd_loop a b = gcd_loop a' b"
        using True m a0 by (subst gcd_loop.simps) (simp add: A_def B_def)
      moreover have "gcd (A mod B) B = gcd A B"
        by (metis gcd.commute gcd_red_int)
      ultimately show ?thesis by (simp add: A_def B_def)
    qed
  next
    case False
    define b' :: i32 where "b' = word_of_int (B mod A)"
    have m: "imod b a = Inr b'" and s: "sint b' = B mod A"
      using imod_positive [of b a] pos by (simp_all add: b'_def A_def B_def)
    show ?thesis
    proof (cases "B mod A = 0")
      case z: True
      then have "b' = 0" by (simp add: b'_def)
      then have "gcd_loop a b = Some (Inr a)"
        using False m by (subst gcd_loop.simps) (simp add: A_def B_def)
      moreover have "gcd A B = A"
        using z pos by (metis gcd.commute gcd_red_int gcd_0_int abs_of_pos)
      ultimately show ?thesis by (simp add: A_def B_def)
    next
      case nz: False
      then have b0: "b' \<noteq> 0" using s by auto
      have sp: "0 < sint b'" using s nz pos
        by (metis Euclidean_Rings.pos_mod_sign less_le)
      have "sint b' < A" using s pos by simp
      then have "nat (sint a + sint b') < nat (sint a + sint b)"
        using False pos by (simp add: A_def B_def)
      from less.hyps [OF this less.prems(1) sp]
      have "gcd_loop a b' = Some (Inr (word_of_int (gcd A (B mod A))))"
        by (simp add: s A_def)
      moreover have "gcd_loop a b = gcd_loop a b'"
        using False m b0 by (subst gcd_loop.simps) (simp add: A_def B_def)
      moreover have "gcd A (B mod A) = gcd A B"
        by (metis gcd.commute gcd_red_int)
      ultimately show ?thesis by (simp add: A_def B_def)
    qed
  qed
qed

lemma gcd_loop_zero_left:
  "0 < sint b \<Longrightarrow> gcd_loop 0 b = Some (Inl DivideByZero)"
  by (subst gcd_loop.simps) (simp add: imod_def)

text \<open>
  So \<open>simplify\<close> stops there on every value with a positive denominator whose
  numerator is a non-zero multiple of the denominator: \<open>4/2\<close>, \<open>3/1\<close>, \<open>5/5\<close>.
\<close>

lemma simplify_multiple_divides_by_zero:
  assumes d: "0 < sint (denominator f)" and n: "numerator f \<noteq> 0"
    and m: "sint (denominator f) dvd sint (numerator f)"
  shows "simplify f = Some (Inl DivideByZero)"
proof -
  note sp = positive_not_special [OF d]
  define q :: i32 where "q = word_of_int (sint (numerator f) sdiv sint (denominator f))"
  have qi: "idiv (numerator f) (denominator f) = Inr q"
    and ri: "imod (numerator f) (denominator f) = Inr 0"
    using sp m by (simp_all add: idiv_def imod_def q_def smod_multiple)
  have fold: "simplify_fold f = Inr (f\<lparr>whole := whole f + q, numerator := 0\<rparr>)"
    by (simp add: simplify_fold_def qi ri)
  have "iabs (denominator f) = denominator f" "iabs 0 = 0"
    using d by (simp_all add: iabs_def)
  then show ?thesis
    using sp n d by (simp add: simplify_def fold gcd_loop_zero_left)
qed

text \<open>
  C2. Claim: when \<open>simplify\<close> runs on a value whose denominator is not zero, its loop
  is never entered with a zero operand, so that neither \<open>a %= b\<close> nor \<open>b %= a\<close>
  divides by zero; this holds in particular when the fold step leaves a zero numerator,
  as for \<open>4/2\<close>.
  The code breaks the claim: the zero numerator is looked for before the fold step only.
  For \<open>4/2\<close> the fold step gives whole part \<open>2\<close> and numerator \<open>0\<close>, the loop is
  entered with \<open>a = 0\<close> and \<open>b = 2\<close>, and \<open>b %= a\<close> divides by zero; so does the
  constructor \<open>Frac(4, 2, true)\<close>.
\<close>

theorem simplify_four_halves_divides_by_zero:
  "simplify_fold \<lparr>numerator = 4, denominator = 2, whole = 0\<rparr>
     = Inr \<lparr>numerator = 0, denominator = 2, whole = 2\<rparr> \<and>
   iabs 0 = 0 \<and> iabs 2 = 2 \<and>
   gcd_loop 0 2 = Some (Inl DivideByZero) \<and>
   simplify \<lparr>numerator = 4, denominator = 2, whole = 0\<rparr> = Some (Inl DivideByZero) \<and>
   Frac_nd 4 2 True = Some (Inl DivideByZero)"
  by (simp add: Frac_nd_def simplify_def simplify_fold_def gcd_loop.simps eval_defs)

subsection \<open>Errors and the state of the left operand\<close>

text \<open>
  Every compound assignment makes its checks before its first assignment, and so do
  increment and decrement on a value without a whole part: when they raise an error the
  object is as it was.
\<close>

lemma compound_assignment_error_unchanged:
  "operator_add_assign_int this v = (this', Some e) \<Longrightarrow> this' = this"
  "operator_sub_assign_int this v = (this', Some e) \<Longrightarrow> this' = this"
  "operator_mul_assign_int this v = (this', Some e) \<Longrightarrow> this' = this"
  "operator_div_assign_int this v = (this', Some e) \<Longrightarrow> this' = this"
  "operator_add_assign this other = (this', Some e) \<Longrightarrow> this' = this"
  "operator_sub_assign this other = (this', Some e) \<Longrightarrow> this' = this"
  "operator_mul_assign this other = (this', Some e) \<Longrightarrow> this' = this"
  "operator_div_assign this other = (this', Some e) \<Longrightarrow> this' = this"
  by (auto simp add: operator_add_assign_int_def operator_sub_assign_int_def
      operator_mul_assign_int_def operator_div_assign_int_def operator_add_assign_def
      operator_sub_assign_def operator_mul_assign_def operator_div_assign_def Let_def
      split: if_splits sum.splits)

lemma increment_decrement_whole_zero_error_unchanged:
  "whole f = 0 \<Longrightarrow> incrementLogic f p = (f', Some e) \<Longrightarrow> f' = f"
  "whole f = 0 \<Longrightarrow> decrementLogic f p = (f', Some e) \<Longrightarrow> f' = f"
  by (auto simp add: incrementLogic_def decrementLogic_def split: if_splits)

text \<open>
  With a whole part, the numerator has already taken \<open>whole * denominator\<close> when
  the overflow is found.
\<close>

lemma incrementLogic_overflow_state:
  assumes "whole f \<noteq> 0"
    and "willAdditionOverflow (numerator f + whole f * denominator f) 1"
  shows "incrementLogic f isPrefix
     = (f\<lparr>numerator := numerator f + whole f * denominator f\<rparr>, Some Overflow)"
  using assms by (simp add: incrementLogic_def)

lemma decrementLogic_overflow_state:
  assumes "whole f \<noteq> 0"
    and "willAdditionOverflow (numerator f + whole f * denominator f) (- 1)"
  shows "decrementLogic f isPrefix
     = (f\<lparr>numerator := numerator f + whole f * denominator f\<rparr>, Some Overflow)"
  using assms by (simp add: decrementLogic_def)

text \<open>
  C3. Claim: every compound assignment, increment and decrement raises its error
  before it changes a field of the left operand; in particular an increment or
  decrement, prefix or postfix, that overflows on a value with \<open>whole != 0\<close> leaves
  \<open>whole\<close>, \<open>numerator\<close> and \<open>denominator\<close> as they were.
  The code breaks the claim: with \<open>whole != 0\<close>, \<open>incrementLogic\<close> and
  \<open>decrementLogic\<close> first add \<open>whole * denominator\<close> to the numerator, which they
  hold by reference, and check for overflow afterwards. On \<open>1 2147483646/1\<close> an
  increment raises Overflow and leaves the numerator \<open>2147483647\<close>; on
  \<open>-1 -2147483647/1\<close> a decrement raises Overflow and leaves the numerator
  \<open>-2147483648\<close>.
\<close>

theorem increment_decrement_change_numerator_before_overflow:
  "operator_pre_inc \<lparr>numerator = 2147483646, denominator = 1, whole = 1\<rparr>
     = (\<lparr>numerator = 2147483647, denominator = 1, whole = 1\<rparr>, Some Overflow) \<and>
   operator_post_inc \<lparr>numerator = 2147483646, denominator = 1, whole = 1\<rparr>
     = (\<lparr>numerator = 2147483647, denominator = 1, whole = 1\<rparr>, Some Overflow, None) \<and>
   operator_pre_dec \<lparr>numerator = - 2147483647, denominator = 1, whole = - 1\<rparr>
     = (\<lparr>numerator = - 2147483648, denominator = 1, whole = - 1\<rparr>, Some Overflow) \<and>
   operator_post_dec \<lparr>numerator = - 2147483647, denominator = 1, whole = - 1\<rparr>
     = (\<lparr>numerator = - 2147483648, denominator = 1, whole = - 1\<rparr>, Some Overflow, None)"
  by (simp add: operator_pre_inc_def operator_post_inc_def operator_pre_dec_def
      operator_post_dec_def incrementLogic_def decrementLogic_def eval_defs)

subsection \<open>Addition of mixed fractions\<close>

text \<open>
  Two tests of the repository add mixed fractions and format the sum as it is returned:
  \<open>Addition\<close> expects \<open>3 0/2\<close> for \<open>1 1/2 + 1 1/2\<close>, and \<open>Frac2Frac_Addition\<close>
  expects \<open>2 3/4\<close> for \<open>1 1/4 + 1 1/2\<close>. \<open>operator+\<close> reads the numerators and
  denominators only and returns \<open>4/4\<close> and \<open>6/8\<close>.
\<close>

lemma addition_tests_of_the_repository:
  "operator_add \<lparr>numerator = 1, denominator = 2, whole = 1\<rparr>
       \<lparr>numerator = 1, denominator = 2, whole = 1\<rparr>
     = Some (Inr \<lparr>numerator = 4, denominator = 4, whole = 0\<rparr>) \<and>
   toString \<lparr>numerator = 4, denominator = 4, whole = 0\<rparr> = ''4/4'' \<and>
   operator_add \<lparr>numerator = 1, denominator = 4, whole = 1\<rparr>
       \<lparr>numerator = 1, denominator = 2, whole = 1\<rparr>
     = Some (Inr \<lparr>numerator = 6, denominator = 8, whole = 0\<rparr>) \<and>
   toString \<lparr>numerator = 6, denominator = 8, whole = 0\<rparr> = ''6/8''"
proof (intro conjI)
  show "operator_add \<lparr>numerator = 1, denominator = 2, whole = 1\<rparr>
       \<lparr>numerator = 1, denominator = 2, whole = 1\<rparr>
     = Some (Inr \<lparr>numerator = 4, denominator = 4, whole = 0\<rparr>)"
    by (simp add: operator_add_def Frac_nd_def eval_defs)
  show "toString \<lparr>numerator = 4, denominator = 4, whole = 0\<rparr> = ''4/4''"
    by code_simp
  show "operator_add \<lparr>numerator = 1, denominator = 4, whole = 1\<rparr>
       \<lparr>numerator = 1, denominator = 2, whole = 1\<rparr>
     = Some (Inr \<lparr>numerator = 6, denominator = 8, whole = 0\<rparr>)"
    by (simp add: operator_add_def Frac_nd_def eval_defs)
  show "toString \<lparr>numerator = 6, denominator = 8, whole = 0\<rparr> = ''6/8''"
    by code_simp
qed

text \<open>The whole parts of the operands have no effect on the sum, whose whole part is zero.\<close>

lemma operator_add_ignores_whole:
  "operator_add (a\<lparr>whole := w\<rparr>) (b\<lparr>whole := v\<rparr>) = operator_add a b"
  by (simp add: operator_add_def cong: sum.case_cong if_cong)

lemma operator_add_whole_zero:
  "operator_add a b = Some (Inr c) \<Longrightarrow> whole c = 0"
  by (auto simp add: operator_add_def Frac_nd_def Let_def split: sum.splits if_splits)

text \<open>
  C4. Claim: \<open>Frac(1,1,4) + Frac(1,1,2)\<close>, simplified and formatted, is the text
  \<open>2 3/4\<close>: the addition takes the whole parts of both operands into account.
  The code breaks the claim: \<open>Frac::operator+(const Frac&)\<close> never reads \<open>whole\<close>.
  The sum is \<open>6/8\<close> with whole part \<open>0\<close>, which simplifies to \<open>3/4\<close> and is
  formatted as \<open>3/4\<close>.
\<close>

theorem mixed_addition_drops_whole_parts:
  "Frac_wnd 1 1 4 False = Some (Inr \<lparr>numerator = 1, denominator = 4, whole = 1\<rparr>) \<and>
   Frac_wnd 1 1 2 False = Some (Inr \<lparr>numerator = 1, denominator = 2, whole = 1\<rparr>) \<and>
   operator_add \<lparr>numerator = 1, denominator = 4, whole = 1\<rparr>
       \<lparr>numerator = 1, denominator = 2, whole = 1\<rparr>
     = Some (Inr \<lparr>numerator = 6, denominator = 8, whole = 0\<rparr>) \<and>
   Simplify \<lparr>numerator = 6, denominator = 8, whole = 0\<rparr>
     = Some (Inr \<lparr>numerator = 3, denominator = 4, whole = 0\<rparr>) \<and>
   toString \<lparr>numerator = 3, denominator = 4, whole = 0\<rparr> = ''3/4''"
proof (intro conjI)
  show "Frac_wnd 1 1 4 False = Some (Inr \<lparr>numerator = 1, denominator = 4, whole = 1\<rparr>)"
    by (simp add: Frac_wnd_def)
  show "Frac_wnd 1 1 2 False = Some (Inr \<lparr>numerator = 1, denominator = 2, whole = 1\<rparr>)"
    by (simp add: Frac_wnd_def)
  show "operator_add \<lparr>numerator = 1, denominator = 4, whole = 1\<rparr>
       \<lparr>numerator = 1, denominator = 2, whole = 1\<rparr>
     = Some (Inr \<lparr>numerator = 6, denominator = 8, whole = 0\<rparr>)"
    by (simp add: operator_add_def Frac_nd_def eval_defs)
  show "Simplify \<lparr>numerator = 6, denominator = 8, whole = 0\<rparr>
     = Some (Inr \<lparr>numerator = 3, denominator = 4, whole = 0\<rparr>)"
    by (simp add: Simplify_def simplify_def simplify_fold_def simplify_reduce_def
        gcd_loop.simps eval_defs)
  show "toString \<lparr>numerator = 3, denominator = 4, whole = 0\<rparr> = ''3/4''"
    by code_simp
qed

subsection \<open>Parsing a whole number\<close>

text \<open>
  Whenever the text is one number and nothing else, the parser stores that number in
  the numerator and in the denominator.
\<close>

lemma consumeWhitespace_digit:
  "isDigit inp \<Longrightarrow> consumeWhitespace inp = inp"
  by (cases inp) (auto simp add: isDigit_def isdigit_def consumeWhitespace_def)

lemma parseFromStream_whole_number:
  assumes "isDigit inp" and "parseNumber inp = Inr (num, [])"
  shows "parseFromStream this inp isSimplifying
     = Some (Inr (this\<lparr>numerator := num, denominator := num\<rparr>))"
  using assms by (simp add: parseFromStream_def consumeWhitespace_digit)

text \<open>The text \<open>0\<close> is accepted in the same way and gives a zero denominator.\<close>

lemma parse_zero_text:
  "Frac_str n0 d0 ''0'' False = Some (Inr \<lparr>numerator = 0, denominator = 0, whole = 0\<rparr>)"
  by (simp add: Frac_str_def parseFromStream_def consumeWhitespace_def isDigit_def
      isdigit_def parseNumber_def in_range_def)

text \<open>
  C5. Claim: a string that consists of digits only parses to a value equal to the
  parsed integer \<open>num\<close> as a whole number, \<open>num/1\<close>.
  The code breaks the claim: at the end of the input \<open>Frac::parseFromStream\<close> assigns
  \<open>num\<close> to the numerator and to the denominator. The text \<open>25\<close> gives \<open>25/25\<close>,
  whose value is \<open>1\<close> and not \<open>25\<close>, whatever the two fields held before.
\<close>

theorem parse_whole_number_text:
  "\<forall>n0 d0. Frac_str n0 d0 ''25'' False
      = Some (Inr \<lparr>numerator = 25, denominator = 25, whole = 0\<rparr>) \<and>
   rational_value \<lparr>numerator = 25, denominator = 25, whole = 0\<rparr> = 1"
  by (simp add: Frac_str_def parseFromStream_def consumeWhitespace_def isDigit_def
      isdigit_def parseNumber_def in_range_def rational_value_def)

subsection \<open>Comparison\<close>

text \<open>
  When both denominators are positive and the cross products stay in the 32-bit range,
  the six operators give the order of the two rational values.
\<close>

lemma cross_product_sint:
  assumes "in_range (improper a * sint (denominator b))"
  shows "sint ((whole a * denominator a + numerator a) * denominator b)
     = improper a * sint (denominator b)"
proof -
  have "(whole a * denominator a + numerator a) * denominator b
     = (word_of_int (improper a * sint (denominator b)) :: i32)"
    by (simp add: improper_def)
  then show ?thesis
    using assms by (simp only: sint_of_int_in_range)
qed

lemma rat_cross_less:
  fixes p q r s :: int
  assumes "0 < q" "0 < s"
  shows "((of_int p :: rat) / of_int q < of_int r / of_int s) = (p * s < r * q)"
proof -
  have "((of_int p :: rat) / of_int q < of_int r / of_int s)
      = ((of_int p :: rat) * of_int s < of_int r * of_int q)"
    using assms by (simp add: field_simps)
  also have "\<dots> = (p * s < r * q)"
    by (simp flip: of_int_mult)
  finally show ?thesis .
qed

lemma rat_cross_le:
  fixes p q r s :: int
  assumes "0 < q" "0 < s"
  shows "((of_int p :: rat) / of_int q \<le> of_int r / of_int s) = (p * s \<le> r * q)"
proof -
  have "((of_int p :: rat) / of_int q \<le> of_int r / of_int s)
      = ((of_int p :: rat) * of_int s \<le> of_int r * of_int q)"
    using assms by (simp add: field_simps)
  also have "\<dots> = (p * s \<le> r * q)"
    by (simp flip: of_int_mult)
  finally show ?thesis .
qed

lemma rat_cross_eq:
  fixes p q r s :: int
  assumes "q \<noteq> 0" "s \<noteq> 0"
  shows "((of_int p :: rat) / of_int q = of_int r / of_int s) = (p * s = r * q)"
proof -
  have "((of_int p :: rat) / of_int q = of_int r / of_int s)
      = ((of_int p :: rat) * of_int s = of_int r * of_int q)"
    using assms by (simp add: field_simps)
  also have "\<dots> = (p * s = r * q)"
    by (simp flip: of_int_mult)
  finally show ?thesis .
qed

lemma comparisons_exact_positive_denominators:
  assumes "0 < sint (denominator a)" and "0 < sint (denominator b)"
    and "comparable a b"
  shows "operator_lt a b = (rational_value a < rational_value b)"
    and "operator_le a b = (rational_value a \<le> rational_value b)"
    and "operator_gt a b = (rational_value b < rational_value a)"
    and "operator_ge a b = (rational_value b \<le> rational_value a)"
    and "operator_eq a b = (rational_value a = rational_value b)"
    and "operator_ne a b = (rational_value a \<noteq> rational_value b)"
proof -
  have l: "sint ((whole a * denominator a + numerator a) * denominator b)
      = improper a * sint (denominator b)"
    and r: "sint ((whole b * denominator b + numerator b) * denominator a)
      = improper b * sint (denominator a)"
    using assms(3) by (simp_all add: comparable_def cross_product_sint)
  have v: "rational_value a = of_int (improper a) / of_int (sint (denominator a))"
    "rational_value b = of_int (improper b) / of_int (sint (denominator b))"
    by (simp_all add: rational_value_def improper_def)
  show "operator_lt a b = (rational_value a < rational_value b)"
    unfolding v rat_cross_less [OF assms(1,2)] by (simp add: operator_lt_def l r)
  show "operator_le a b = (rational_value a \<le> rational_value b)"
    unfolding v rat_cross_le [OF assms(1,2)] by (simp add: operator_le_def l r)
  show "operator_gt a b = (rational_value b < rational_value a)"
    unfolding v rat_cross_less [OF assms(2,1)] by (simp add: operator_gt_def l r)
  show "operator_ge a b = (rational_value b \<le> rational_value a)"
    unfolding v rat_cross_le [OF assms(2,1)] by (simp add: operator_ge_def l r)
  have nz: "sint (denominator a) \<noteq> 0" "sint (denominator b) \<noteq> 0"
    using assms(1,2) by simp_all
  show e: "operator_eq a b = (rational_value a = rational_value b)"
    unfolding v rat_cross_eq [OF nz] by (simp add: operator_eq_def i32_eq_iff l r)
  show "operator_ne a b = (rational_value a \<noteq> rational_value b)"
    by (simp add: operator_ne_def e)
qed

text \<open>
  C6. Claim: for two values whose cross products are within the 32-bit range, each of
  \<open>==\<close>, \<open>!=\<close>, \<open><\<close>, \<open><=\<close>, \<open>>\<close>, \<open>>=\<close> returns the truth of that relation
  between the two rational values, neither operand being simplified first, negative
  denominators included.
  The code breaks the claim: the cross products are compared as they are, and a
  negative denominator turns the order around. For \<open>Frac(1, -2)\<close> and \<open>Frac(1, 2)\<close>
  the cross products are \<open>2\<close> and \<open>-2\<close>, so \<open><\<close> returns \<open>false\<close> and \<open>>\<close>
  returns \<open>true\<close>, while \<open>-1/2\<close> is less than \<open>1/2\<close>.
\<close>

theorem operator_lt_negative_denominator:
  "Frac_nd 1 (- 2) False = Some (Inr \<lparr>numerator = 1, denominator = - 2, whole = 0\<rparr>) \<and>
   Frac_nd 1 2 False = Some (Inr \<lparr>numerator = 1, denominator = 2, whole = 0\<rparr>) \<and>
   comparable \<lparr>numerator = 1, denominator = - 2, whole = 0\<rparr>
     \<lparr>numerator = 1, denominator = 2, whole = 0\<rparr> \<and>
   operator_lt \<lparr>numerator = 1, denominator = - 2, whole = 0\<rparr>
       \<lparr>numerator = 1, denominator = 2, whole = 0\<rparr> = False \<and>
   operator_gt \<lparr>numerator = 1, denominator = - 2, whole = 0\<rparr>
       \<lparr>numerator = 1, denominator = 2, whole = 0\<rparr> = True \<and>
   rational_value \<lparr>numerator = 1, denominator = - 2, whole = 0\<rparr>
     < rational_value \<lparr>numerator = 1, denominator = 2, whole = 0\<rparr>"
  by (simp add: Frac_nd_def comparable_def improper_def in_range_def operator_lt_def
      operator_gt_def rational_value_def)

subsection \<open>Multiplication by an integer, in both orders\<close>

text \<open>As long as the product fits, the two orders return the same value.\<close>

lemma reversed_multiplication_agrees_without_overflow:
  "in_range (sint (numerator a) * sint n) \<Longrightarrow> int_operator_mul n a = operator_mul_int a n"
  by (simp add: int_operator_mul_def operator_mul_int_def willMultiplicationOverflow_eq)

text \<open>The reversed form returns the product modulo \<open>2 ^ 32\<close>, whatever its size.\<close>

lemma reversed_multiplication_unchecked:
  "denominator a \<noteq> 0 \<Longrightarrow>
     int_operator_mul n a
       = Some (Inr \<lparr>numerator = numerator a * n, denominator = denominator a, whole = 0\<rparr>)"
  by (simp add: int_operator_mul_def Frac_nd_def)

text \<open>
  C7. Claim: for a \<open>Frac\<close> \<open>a\<close> and an integer \<open>n\<close>, \<open>n * a\<close> gives the same result
  as \<open>a * n\<close> and raises Overflow on the same inputs, a product outside the 32-bit
  range being rejected and not wrapped.
  The code breaks the claim: \<open>operator*(int, const Frac&)\<close> multiplies without the
  check that \<open>Frac::operator*(int)\<close> makes. For \<open>a = Frac(1073741824)\<close> and \<open>n = 2\<close>,
  \<open>a * n\<close> raises Overflow and \<open>n * a\<close> returns \<open>-2147483648/1\<close>.
\<close>

theorem reversed_multiplication_wraps:
  "operator_mul_int (Frac_int 1073741824) 2 = Some (Inl Overflow) \<and>
   int_operator_mul 2 (Frac_int 1073741824)
     = Some (Inr \<lparr>numerator = - 2147483648, denominator = 1, whole = 0\<rparr>)"
  by (simp add: operator_mul_int_def int_operator_mul_def Frac_int_def Frac_nd_def eval_defs)

subsection \<open>Simplifying twice\<close>

text \<open>
  A value with a positive denominator that \<open>simplify\<close> returns is a fixed point of
  \<open>simplify\<close>: the fold step leaves it as it is, the loop finds the divisor \<open>1\<close>.
\<close>

lemma simplify_fixed_point:
  assumes d: "0 < sint (denominator g)" and n0: "numerator g \<noteq> 0"
    and lt: "\<bar>sint (numerator g)\<bar> < sint (denominator g)"
    and co: "gcd (sint (numerator g)) (sint (denominator g)) = 1"
    and sg: "sint (numerator g) < 0 \<Longrightarrow> whole g = 0"
  shows "simplify g = Some (Inr g)"
proof -
  note sp = positive_not_special [OF d]
  have q: "idiv (numerator g) (denominator g) = Inr 0"
    using sp lt by (simp add: idiv_def sdiv_small)
  have r: "imod (numerator g) (denominator g) = Inr (numerator g)"
    using sp lt by (simp add: imod_def smod_small)
  have c: "\<not> (sint (numerator g) < 0 \<and> whole g \<noteq> 0)"
    using sg by blast
  have fold: "simplify_fold g = Inr g"
    using c by (auto simp add: simplify_fold_def q r)
  have "sint (numerator g) \<noteq> - 2147483648"
    using lt sint_range32 [of "denominator g"] by linarith
  then have a: "sint (iabs (numerator g)) = \<bar>sint (numerator g)\<bar>"
    by (rule sint_iabs)
  have b: "iabs (denominator g) = denominator g"
    using d by (simp add: iabs_def)
  have "sint (numerator g) \<noteq> 0"
    using n0 by (simp add: i32_eq_iff)
  then have "0 < sint (iabs (numerator g))"
    using a by simp
  from gcd_loop_positive [OF this, of "denominator g"] d
  have loop: "gcd_loop (iabs (numerator g)) (iabs (denominator g)) = Some (Inr 1)"
    using co by (simp add: a b)
  have red: "simplify_reduce g 1 = Inr g"
    using d by (simp add: simplify_reduce_def idiv_one)
  show ?thesis
    using sp n0 by (simp add: simplify_def fold loop red)
qed

lemma simplify_fold_positive:
  assumes d: "0 < sint (denominator f)"
  obtains h where "simplify_fold f = Inr h" and "denominator h = denominator f"
    and "\<bar>sint (numerator h)\<bar> < sint (denominator f)"
    and "sint (numerator h) < 0 \<longrightarrow> whole h = 0"
proof -
  define N D where "N = sint (numerator f)" and "D = sint (denominator f)"
  define q r :: i32 where "q = word_of_int (N sdiv D)" and "r = word_of_int (N smod D)"
  note sp = positive_not_special [OF d]
  have D: "0 < D" "D < 2147483648"
    using d sint_range32 [of "denominator f"] by (simp_all add: D_def)
  have qi: "idiv (numerator f) (denominator f) = Inr q"
    and ri: "imod (numerator f) (denominator f) = Inr r"
    using sp by (simp_all add: idiv_def imod_def q_def r_def N_def D_def)
  have rb: "\<bar>N smod D\<bar> < D"
    using smod_abs_less [of D N] D by simp
  then have "in_range (N smod D)"
    using D unfolding in_range_def by linarith
  then have sr: "sint r = N smod D"
    unfolding r_def by (rule sint_of_int_in_range)
  show ?thesis
  proof (cases "sint r < 0 \<and> whole f + q \<noteq> 0")
    case True
    define n2 where "n2 = r + iabs (denominator f)"
    have "iabs (denominator f) = denominator f"
      using d by (simp add: iabs_def)
    then have n2: "n2 = r + denominator f" by (simp add: n2_def)
    have "in_range (sint r + sint (denominator f))"
      using True rb D sr by (simp add: in_range_def D_def)
    then have s2: "sint n2 = N smod D + D"
      unfolding n2 using sr by (simp add: sint_add_in_range D_def)
    have p2: "0 < sint n2" "sint n2 < D"
      using s2 rb True sr by linarith+
    have "simplify_fold f
        = Inr (f\<lparr>whole := whole f + q - 1, numerator := n2\<rparr>)"
      using True p2 by (simp add: simplify_fold_def qi ri n2_def Let_def)
    moreover have "\<bar>sint n2\<bar> < sint (denominator f)"
      using p2 by (simp add: D_def)
    ultimately show ?thesis
      using p2 by (intro that [of "f\<lparr>whole := whole f + q - 1, numerator := n2\<rparr>"]) simp_all
  next
    case False
    have "simplify_fold f = Inr (f\<lparr>whole := whole f + q, numerator := r\<rparr>)"
      using False by (auto simp add: simplify_fold_def qi ri Let_def)
    moreover have "\<bar>sint r\<bar> < sint (denominator f)"
      using rb sr by (simp add: D_def)
    ultimately show ?thesis
      using False by (intro that [of "f\<lparr>whole := whole f + q, numerator := r\<rparr>"]) auto
  qed
qed

lemma simplify_reduce_positive:
  fixes h :: Frac
  defines "N \<equiv> sint (numerator h)" and "D \<equiv> sint (denominator h)"
  assumes d: "0 < D" and n: "N \<noteq> 0" and lt: "\<bar>N\<bar> < D"
  obtains g where "simplify_reduce h (word_of_int (gcd N D)) = Inr g"
    and "whole g = whole h"
    and "sint (numerator g) = N div gcd N D"
    and "sint (denominator g) = D div gcd N D"
proof -
  define G where "G = gcd N D"
  define gw :: i32 where "gw = word_of_int G"
  have Db: "D < 2147483648"
    using sint_range32 [of "denominator h"] by (simp add: D_def)
  have G: "0 < G" "G \<le> D" "G dvd N" "G dvd D"
    using d by (simp_all add: G_def gcd_le2_int)
  then have "in_range G" using Db by (simp add: in_range_def)
  then have sg: "sint gw = G"
    unfolding gw_def by (rule sint_of_int_in_range)
  then have gsp: "gw \<noteq> 0" "gw \<noteq> - 1"
    using G(1) positive_not_special [of gw] by simp_all
  define N3 D3 where "N3 = N div G" and "D3 = D div G"
  have N3: "N = N3 * G" and D3: "D = D3 * G"
    using G by (simp_all add: N3_def D3_def)
  have D3p: "0 < D3"
    using d G(1) D3 by (metis zero_less_mult_pos2)
  have "\<bar>N3\<bar> \<le> \<bar>N\<bar>" "D3 \<le> D"
    using G(1) N3 D3 D3p
    by (simp_all add: abs_mult mult_le_cancel_left1 [where 'a=int])
  then have "in_range N3" "in_range D3"
    using lt Db D3p unfolding in_range_def by linarith+
  then have s3: "sint (word_of_int N3 :: i32) = N3" "sint (word_of_int D3 :: i32) = D3"
    by (simp_all add: sint_of_int_in_range)
  have "idiv (numerator h) gw = Inr (word_of_int N3)"
    "idiv (denominator h) gw = Inr (word_of_int D3)"
    using gsp G by (simp_all add: idiv_def sg sdiv_exact N3_def D3_def N_def D_def)
  then have "simplify_reduce h gw
      = Inr (h\<lparr>numerator := word_of_int N3, denominator := word_of_int D3\<rparr>)"
    using D3p by (simp add: simplify_reduce_def s3)
  then show ?thesis
    using s3
    by (intro that [of "h\<lparr>numerator := word_of_int N3, denominator := word_of_int D3\<rparr>"])
      (simp_all add: gw_def G_def N3_def D3_def)
qed

lemma simplify_idempotent_positive_denominator:
  assumes d: "0 < sint (denominator f)" and s: "simplify f = Some (Inr g)"
  shows "simplify g = Some (Inr g)"
proof (cases "numerator f = 0")
  case True
  have "g = f\<lparr>whole := 0, denominator := 1\<rparr>"
    using positive_not_special [OF d] True s by (simp add: simplify_def)
  then show ?thesis
    using True by (simp add: simplify_def)
next
  case False
  note sp = positive_not_special [OF d]
  from simplify_fold_positive [OF d] obtain h where
    fold: "simplify_fold f = Inr h" and dh: "denominator h = denominator f"
    and lt: "\<bar>sint (numerator h)\<bar> < sint (denominator f)"
    and sg: "sint (numerator h) < 0 \<longrightarrow> whole h = 0"
    by blast
  define N D where "N = sint (numerator h)" and "D = sint (denominator h)"
  have Dp: "0 < D" and Db: "D < 2147483648"
    using d dh sint_range32 [of "denominator h"] by (simp_all add: D_def)
  have ltD: "\<bar>N\<bar> < D" using lt dh by (simp add: N_def D_def)
  have b: "iabs (denominator h) = denominator h"
    using d dh by (simp add: iabs_def)
  have N0: "N \<noteq> 0"
  proof
    assume "N = 0"
    then have "numerator h = 0" by (simp add: N_def i32_eq_iff)
    then have "simplify f = Some (Inl DivideByZero)"
      using sp False Dp
      by (simp add: simplify_def fold b iabs_def gcd_loop_zero_left D_def)
    with s show False by simp
  qed
  have "N \<noteq> - 2147483648" using ltD Db by linarith
  then have a: "sint (iabs (numerator h)) = \<bar>N\<bar>"
    unfolding N_def by (rule sint_iabs)
  then have "0 < sint (iabs (numerator h))" using N0 by simp
  from gcd_loop_positive [OF this, of "denominator h"] Dp
  have loop: "gcd_loop (iabs (numerator h)) (iabs (denominator h))
      = Some (Inr (word_of_int (gcd N D)))"
    by (simp add: a b D_def)
  from simplify_reduce_positive [of h] Dp N0 ltD obtain g' where
    red: "simplify_reduce h (word_of_int (gcd N D)) = Inr g'"
    and wg: "whole g' = whole h"
    and ng: "sint (numerator g') = N div gcd N D"
    and dg: "sint (denominator g') = D div gcd N D"
    unfolding N_def D_def by blast
  have "simplify f = Some (Inr g')"
    using sp False by (simp add: simplify_def fold loop red)
  with s have g: "g = g'" by simp
  define G where "G = gcd N D"
  have G: "0 < G" "G dvd N" "G dvd D"
    using Dp by (simp_all add: G_def)
  define N3 D3 where "N3 = N div G" and "D3 = D div G"
  have N3: "N = N3 * G" and D3: "D = D3 * G"
    using G by (simp_all add: N3_def D3_def)
  have D3p: "0 < D3"
    using Dp G(1) D3 by (metis zero_less_mult_pos2)
  have N30: "N3 \<noteq> 0" using N0 N3 by auto
  have "\<bar>N3\<bar> * G < D3 * G"
    using ltD N3 D3 G(1) by (simp add: abs_mult)
  then have lt3: "\<bar>N3\<bar> < D3"
    using G(1) by simp
  have co: "gcd N3 D3 = 1"
    unfolding N3_def D3_def G_def using N0 by (simp add: div_gcd_coprime)
  have neg: "N3 < 0 \<Longrightarrow> N < 0"
    using N3 G(1) by (simp add: mult_less_0_iff)
  have "simplify g' = Some (Inr g')"
  proof (rule simplify_fixed_point)
    show "0 < sint (denominator g')" using D3p by (simp add: dg D3_def G_def)
    show "numerator g' \<noteq> 0" using N30 ng by (auto simp add: N3_def G_def)
    show "\<bar>sint (numerator g')\<bar> < sint (denominator g')"
      using lt3 by (simp add: ng dg N3_def D3_def G_def)
    show "gcd (sint (numerator g')) (sint (denominator g')) = 1"
      using co by (simp add: ng dg N3_def D3_def G_def)
    show "whole g' = 0" if "sint (numerator g') < 0"
      using that neg sg wg by (simp add: ng N3_def G_def N_def)
  qed
  then show ?thesis by (simp add: g)
qed

text \<open>
  C8. Claim: for every value \<open>x\<close> on which \<open>simplify\<close> is defined, simplifying
  twice gives the same three fields as simplifying once.
  The code breaks the claim on negative denominators: the sign is moved to the
  numerator at the very end, after the step that keeps the numerator non-negative
  next to a whole part. \<open>Frac(1, 1, -2)\<close> simplifies to \<open>1 -1/2\<close>, and that value
  simplifies to \<open>1/2\<close> with whole part \<open>0\<close>.
\<close>

theorem simplify_twice_differs:
  "Frac_wnd 1 1 (- 2) False
     = Some (Inr \<lparr>numerator = 1, denominator = - 2, whole = 1\<rparr>) \<and>
   simplify \<lparr>numerator = 1, denominator = - 2, whole = 1\<rparr>
     = Some (Inr \<lparr>numerator = - 1, denominator = 2, whole = 1\<rparr>) \<and>
   simplify \<lparr>numerator = - 1, denominator = 2, whole = 1\<rparr>
     = Some (Inr \<lparr>numerator = 1, denominator = 2, whole = 0\<rparr>) \<and>
   \<lparr>numerator = - 1, denominator = 2, whole = 1\<rparr>
     \<noteq> \<lparr>numerator = 1, denominator = 2, whole = (0::i32)\<rparr>"
  by (simp add: Frac_wnd_def simplify_def simplify_fold_def simplify_reduce_def
      gcd_loop.simps eval_defs)

subsection \<open>Assignment\<close>

lemma operator_assign_self: "operator_assign a a = a"
  by (simp add: operator_assign_def)

text \<open>
  C10. The assignment \<open>a = b\<close> from another \<open>Frac\<close> copies the numerator and the
  denominator of \<open>b\<close> and leaves the field \<open>whole\<close> of \<open>a\<close> as it was; so when the
  two whole parts differ, \<open>a.whole\<close> holds its earlier value afterwards, not
  \<open>b.whole\<close>.
\<close>

theorem operator_assign_keeps_whole:
  "numerator (operator_assign a b) = numerator b \<and>
   denominator (operator_assign a b) = denominator b \<and>
   whole (operator_assign a b) = whole a \<and>
   (whole a \<noteq> whole b \<longrightarrow> whole (operator_assign a b) \<noteq> whole b)"
  by (simp add: operator_assign_def)

theorem operator_assign_keeps_whole_witness:
  "whole \<lparr>numerator = 1, denominator = 2, whole = 3\<rparr>
     \<noteq> whole \<lparr>numerator = 5, denominator = 7, whole = 0\<rparr> \<and>
   whole (operator_assign \<lparr>numerator = 1, denominator = 2, whole = 3\<rparr>
            \<lparr>numerator = 5, denominator = 7, whole = 0\<rparr>) = 3 \<and>
   whole (operator_assign \<lparr>numerator = 1, denominator = 2, whole = 3\<rparr>
            \<lparr>numerator = 5, denominator = 7, whole = 0\<rparr>)
     \<noteq> whole \<lparr>numerator = 5, denominator = 7, whole = 0\<rparr>"
proof -
  have h: "whole \<lparr>numerator = 1, denominator = 2, whole = 3\<rparr>
      \<noteq> whole \<lparr>numerator = 5, denominator = 7, whole = 0\<rparr>"
    by simp
  from h operator_assign_keeps_whole
    [of "\<lparr>numerator = 1, denominator = 2, whole = 3\<rparr>"
        "\<lparr>numerator = 5, denominator = 7, whole = 0\<rparr>"]
  show ?thesis by simp
qed

end
